theory Spec2Isabelle
  imports Complex_Main
begin

section \<open>Data model\<close>

text \<open>
  The evaluator of \<^verbatim>\<open>safe_eval.py\<close> works on Python floats. They are modelled as exact
  rationals: rounding, infinities and NaN are outside the model. Characters are code
  points below 256.
\<close>

type_synonym pyfloat = rat

text \<open>
  A token is a float or a Python \<^verbatim>\<open>str\<close>; the tokenizer only produces the six
  one-character strings \<^verbatim>\<open>+ - * / ( )\<close>, the later stages accept any string.
\<close>

datatype token = Number pyfloat | Symbol string

text \<open>
  The exception classes. The message of an exception is kept as a tag naming the place
  that raises it. \<open>PyException\<close> is any exception outside the \<^verbatim>\<open>SafeEvalError\<close>
  hierarchy, with the name of its type and its message.
\<close>

datatype invalid_site =
    Untokenizable
  | InvalidNumberFormat
  | EmptyExpression
  | NoEvaluableTokens
  | NumbersButEmptyRPN
  | NoEvaluableContent
  | UnknownTokenInConversion
  | NotEnoughOperands
  | UnknownTokenInRPN
  | StackNotSingle

datatype paren_site = MissingLeft | MissingRight

datatype safe_site = OperationFailed | Unexpected string string

datatype error =
    PyException string string
  | SafeEvalError safe_site
  | InvalidExpressionError invalid_site
  | DivisionByZeroError
  | UnbalancedParenthesesError paren_site
  | UnknownCharacterError string nat


fun is_InvalidExpressionError :: "error \<Rightarrow> bool" where
  "is_InvalidExpressionError (InvalidExpressionError _) = True"
| "is_InvalidExpressionError (UnbalancedParenthesesError _) = True"
| "is_InvalidExpressionError (UnknownCharacterError _ _) = True"
| "is_InvalidExpressionError _ = False"

fun is_number :: "token \<Rightarrow> bool" where
  "is_number (Number _) = True"
| "is_number (Symbol _) = False"

section \<open>Tokenizer\<close>

text \<open>The character classes \<^verbatim>\<open>\d\<close> and \<^verbatim>\<open>\s\<close> of the regular expression.\<close>

definition is_digit :: "char \<Rightarrow> bool" where
  "is_digit c = (c \<in> set ''0123456789'')"

definition is_space :: "char \<Rightarrow> bool" where
  "is_space c = (c \<in> set [CHR 0x09, CHR 0x0A, CHR 0x0B, CHR 0x0C, CHR 0x0D,
                          CHR 0x1C, CHR 0x1D, CHR 0x1E, CHR 0x1F, CHR 0x20,
                          CHR 0x85, CHR 0xA0])"

datatype kind = NUMBER | OPERATOR | SPACE | MISMATCH

text \<open>The alternative \<^verbatim>\<open>(?:\d+(?:\.\d*)?|\.\d+)\<close>, matched greedily at the start.\<close>

definition match_number :: "string \<Rightarrow> string option" where
  "match_number s =
     (let ds = takeWhile is_digit s in
      if ds \<noteq> [] then
        (case drop (length ds) s of
           c # r \<Rightarrow> if c = CHR ''.'' then Some (ds @ [c] @ takeWhile is_digit r) else Some ds
         | [] \<Rightarrow> Some ds)
      else
        (case s of
           c # r \<Rightarrow> if c = CHR ''.'' \<and> takeWhile is_digit r \<noteq> []
                    then Some (c # takeWhile is_digit r) else None
         | [] \<Rightarrow> None))"

text \<open>
  \<^verbatim>\<open>re.match(tok_regex, s)\<close>: the first alternative that matches, with the name of
  its group and the matched text. \<^verbatim>\<open>.\<close> does not match a newline.
\<close>

definition re_match :: "string \<Rightarrow> (kind \<times> string) option" where
  "re_match s =
     (case match_number s of
        Some v \<Rightarrow> Some (NUMBER, v)
      | None \<Rightarrow>
          (case s of
             [] \<Rightarrow> None
           | c # r \<Rightarrow>
               if c \<in> set ''+-*/()'' then Some (OPERATOR, [c])
               else if is_space c then Some (SPACE, takeWhile is_space s)
               else if c \<noteq> CHR 0x0A then Some (MISMATCH, [c])
               else None))"

text \<open>
  \<^verbatim>\<open>float(value)\<close> on a text matched by the number pattern: the decimal value of the
  digits before and after the point. It does not fail on such a text.
\<close>

definition digit_value :: "char \<Rightarrow> nat" where
  "digit_value c = of_char c - 48"

definition digits_value :: "string \<Rightarrow> nat" where
  "digits_value ds = foldl (\<lambda>a c. 10 * a + digit_value c) 0 ds"

definition float_of_str :: "string \<Rightarrow> pyfloat" where
  "float_of_str v =
     (let ip = takeWhile is_digit v; fp = drop (length ip + 1) v
      in of_nat (digits_value ip) + of_nat (digits_value fp) / 10 ^ length fp)"

lemma match_number_length:
  "match_number s = Some v \<Longrightarrow> 0 < length v"
  by (auto simp: match_number_def Let_def split: if_splits list.splits)

lemma re_match_length:
  "re_match s = Some (k, v) \<Longrightarrow> 0 < length v"
  by (auto simp: re_match_def dest: match_number_length
           split: option.splits list.splits if_splits)

lemma re_match_consumes:
  "re_match s = Some (k, v) \<Longrightarrow> p < n \<Longrightarrow> n - (p + length v) < n - (p::nat)"
  using re_match_length [of s k v] by arith

function tokenize_loop :: "string \<Rightarrow> nat \<Rightarrow> token list \<Rightarrow> error + token list" where
  "tokenize_loop expression current_pos tokens =
     (if current_pos < length expression then
        (case re_match (drop current_pos expression) of
           None \<Rightarrow> Inl (InvalidExpressionError Untokenizable)
         | Some (NUMBER, v) \<Rightarrow>
             tokenize_loop expression (current_pos + length v) (tokens @ [Number (float_of_str v)])
         | Some (OPERATOR, v) \<Rightarrow>
             tokenize_loop expression (current_pos + length v) (tokens @ [Symbol v])
         | Some (SPACE, v) \<Rightarrow>
             tokenize_loop expression (current_pos + length v) tokens
         | Some (MISMATCH, v) \<Rightarrow> Inl (UnknownCharacterError v current_pos))
      else Inr tokens)"
  by pat_completeness auto
termination
  by (relation "measure (\<lambda>(e, p, t). length e - p)")
     (auto intro: re_match_consumes)

definition tokenize :: "string \<Rightarrow> error + token list" where
  "tokenize expression = tokenize_loop expression 0 []"

section \<open>Infix to RPN\<close>

definition PRECEDENCE :: "string \<rightharpoonup> nat" where
  "PRECEDENCE = [''+'' \<mapsto> 1, ''-'' \<mapsto> 1, ''*'' \<mapsto> 2, ''/'' \<mapsto> 2]"

definition ASSOCIATIVITY :: "string \<rightharpoonup> char" where
  "ASSOCIATIVITY = [''+'' \<mapsto> CHR ''L'', ''-'' \<mapsto> CHR ''L'', ''*'' \<mapsto> CHR ''L'', ''/'' \<mapsto> CHR ''L'']"

text \<open>\<^verbatim>\<open>PRECEDENCE.get(x, 0)\<close>.\<close>

definition precedence_get :: "string \<Rightarrow> nat" where
  "precedence_get x = (case PRECEDENCE x of Some p \<Rightarrow> p | None \<Rightarrow> 0)"

subsection \<open>The unary pass\<close>

text \<open>
  The flag \<^verbatim>\<open>is_unary\<close> that the first loop of \<^verbatim>\<open>infix_to_rpn\<close> computes for
  the token at index \<open>i\<close>.
\<close>

definition is_unary :: "token list \<Rightarrow> nat \<Rightarrow> bool" where
  "is_unary tokens i =
     (tokens ! i \<in> set [Symbol ''+'', Symbol ''-''] \<and>
      (i = 0 \<or> (case tokens ! (i - 1) of
                  Symbol s \<Rightarrow> s \<in> set [''('', ''+'', ''-'', ''*'', ''/'']
                | Number _ \<Rightarrow> False)) \<and>
      i + 1 < length tokens \<and> is_number (tokens ! (i + 1)))"

text \<open>
  \<^verbatim>\<open>-tokens[i+1]\<close>; the loop negates a token only after it has checked that the token
  is a number.
\<close>

fun negate :: "token \<Rightarrow> token" where
  "negate (Number v) = Number (- v)"
| "negate (Symbol s) = Symbol s"

function unary_loop :: "token list \<Rightarrow> nat \<Rightarrow> token list \<Rightarrow> token list" where
  "unary_loop tokens i processed_tokens =
     (if i < length tokens then
        (if is_unary tokens i then
           (if tokens ! i = Symbol ''-''
            then unary_loop tokens (i + 1 + 1) (processed_tokens @ [negate (tokens ! (i + 1))])
            else unary_loop tokens (i + 1 + 1) (processed_tokens @ [tokens ! (i + 1)]))
         else unary_loop tokens (i + 1) (processed_tokens @ [tokens ! i]))
      else processed_tokens)"
  by pat_completeness auto
termination
  by (relation "measure (\<lambda>(ts, i, p). length ts - i)") auto

subsection \<open>Shunting-yard\<close>

text \<open>
  The operator stack is a list whose head is the tos of the stack. The loop of the
  operator branch pops while the tos is not a left parenthesis and binds at least as
  tightly as the token, whose precedence is \<open>p\<close>.
\<close>

fun pop_operators :: "string \<Rightarrow> nat \<Rightarrow> token list \<Rightarrow> string list \<Rightarrow> token list \<times> string list" where
  "pop_operators tok p output_queue [] = (output_queue, [])"
| "pop_operators tok p output_queue (tos # operator_stack) =
     (if tos \<noteq> ''('' \<and>
         (precedence_get tos > p \<or>
          (precedence_get tos = p \<and> ASSOCIATIVITY tok = Some CHR ''L''))
      then pop_operators tok p (output_queue @ [Symbol tos]) operator_stack
      else (output_queue, tos # operator_stack))"

text \<open>The loop of the right-parenthesis branch.\<close>

fun pop_to_paren :: "token list \<Rightarrow> string list \<Rightarrow> token list \<times> string list" where
  "pop_to_paren output_queue [] = (output_queue, [])"
| "pop_to_paren output_queue (tos # operator_stack) =
     (if tos \<noteq> ''(''
      then pop_to_paren (output_queue @ [Symbol tos]) operator_stack
      else (output_queue, tos # operator_stack))"

text \<open>The loop after the tokens are consumed.\<close>

fun drain :: "token list \<Rightarrow> string list \<Rightarrow> error + token list" where
  "drain output_queue [] = Inr output_queue"
| "drain output_queue (tos # operator_stack) =
     (if tos = ''('' then Inl (UnbalancedParenthesesError MissingRight)
      else drain (output_queue @ [Symbol tos]) operator_stack)"

fun shunting_loop :: "token list \<Rightarrow> token list \<Rightarrow> string list \<Rightarrow> error + token list" where
  "shunting_loop [] output_queue operator_stack = drain output_queue operator_stack"
| "shunting_loop (Number v # tokens) output_queue operator_stack =
     shunting_loop tokens (output_queue @ [Number v]) operator_stack"
| "shunting_loop (Symbol s # tokens) output_queue operator_stack =
     (case PRECEDENCE s of
        Some p \<Rightarrow>
          (case pop_operators s p output_queue operator_stack of
             (out, st) \<Rightarrow> shunting_loop tokens out (s # st))
      | None \<Rightarrow>
          if s = ''('' then shunting_loop tokens output_queue (s # operator_stack)
          else if s = '')'' then
            (case pop_to_paren output_queue operator_stack of
               (out, []) \<Rightarrow> Inl (UnbalancedParenthesesError MissingLeft)
             | (out, tos # st) \<Rightarrow>
                 if tos \<noteq> ''('' then Inl (UnbalancedParenthesesError MissingLeft)
                 else shunting_loop tokens out st)
          else Inl (InvalidExpressionError UnknownTokenInConversion))"

definition infix_to_rpn :: "token list \<Rightarrow> error + token list" where
  "infix_to_rpn tokens = shunting_loop (unary_loop tokens 0 []) [] []"

section \<open>RPN evaluator\<close>

definition OPERATORS :: "string \<rightharpoonup> (pyfloat \<Rightarrow> pyfloat \<Rightarrow> pyfloat)" where
  "OPERATORS = [''+'' \<mapsto> (\<lambda>a b. a + b), ''-'' \<mapsto> (\<lambda>a b. a - b),
                ''*'' \<mapsto> (\<lambda>a b. a * b), ''/'' \<mapsto> (\<lambda>a b. a / b)]"

text \<open>
  The operand stack is a list whose head is the tos of the stack. The operators are
  total on the rationals, so the handler around their application never runs.
\<close>

fun rpn_loop :: "token list \<Rightarrow> pyfloat list \<Rightarrow> error + pyfloat" where
  "rpn_loop [] operand_stack =
     (case operand_stack of
        [result] \<Rightarrow> Inr result
      | _ \<Rightarrow> Inl (InvalidExpressionError StackNotSingle))"
| "rpn_loop (Number v # rpn_tokens) operand_stack = rpn_loop rpn_tokens (v # operand_stack)"
| "rpn_loop (Symbol s # rpn_tokens) operand_stack =
     (case OPERATORS s of
        Some f \<Rightarrow>
          (case operand_stack of
             op2 # op1 # rest \<Rightarrow>
               if s = ''/'' \<and> op2 = 0 then Inl DivisionByZeroError
               else rpn_loop rpn_tokens (f op1 op2 # rest)
           | _ \<Rightarrow> Inl (InvalidExpressionError NotEnoughOperands))
      | None \<Rightarrow> Inl (InvalidExpressionError UnknownTokenInRPN))"

definition evaluate_rpn :: "token list \<Rightarrow> error + pyfloat" where
  "evaluate_rpn rpn_tokens = rpn_loop rpn_tokens []"

section \<open>The main function\<close>

text \<open>The argument is any Python object; only a \<^verbatim>\<open>str\<close> is looked into.\<close>

datatype pyobject = PyStr string | PyOther

text \<open>\<^verbatim>\<open>str.strip()\<close>.\<close>

definition strip :: "string \<Rightarrow> string" where
  "strip s = rev (dropWhile is_space (rev (dropWhile is_space s)))"

text \<open>The body of the \<^verbatim>\<open>try\<close> block.\<close>

definition evaluate_stripped :: "string \<Rightarrow> error + pyfloat" where
  "evaluate_stripped stripped_expression =
     (case tokenize stripped_expression of
        Inl e \<Rightarrow> Inl e
      | Inr tokens \<Rightarrow>
          if tokens = [] then Inl (InvalidExpressionError NoEvaluableTokens)
          else
            (case infix_to_rpn tokens of
               Inl e \<Rightarrow> Inl e
             | Inr rpn_expression \<Rightarrow>
                 if rpn_expression = [] then
                   (if list_ex is_number tokens
                    then Inl (InvalidExpressionError NumbersButEmptyRPN)
                    else Inl (InvalidExpressionError NoEvaluableContent))
                 else evaluate_rpn rpn_expression))"

text \<open>
  The two \<^verbatim>\<open>except\<close> clauses: an exception of the hierarchy is raised again, any
  other one is wrapped with the name of its type and its message.
\<close>

fun reraise :: "error + pyfloat \<Rightarrow> error + pyfloat" where
  "reraise (Inr v) = Inr v"
| "reraise (Inl (PyException tname msg)) = Inl (SafeEvalError (Unexpected tname msg))"
| "reraise (Inl e) = Inl e"

fun safe_evaluate_expression :: "pyobject \<Rightarrow> error + pyfloat" where
  "safe_evaluate_expression PyOther =
     Inl (PyException ''TypeError'' ''Expression must be a string.'')"
| "safe_evaluate_expression (PyStr expression) =
     (let stripped_expression = strip expression in
      if stripped_expression = [] then Inl (InvalidExpressionError EmptyExpression)
      else reraise (evaluate_stripped stripped_expression))"

section \<open>Auxiliary notions\<close>

text \<open>
  The operand stack that the loop of \<^verbatim>\<open>evaluate_rpn\<close> has built once it has consumed
  the given tokens: the loop of \<open>rpn_loop\<close> without the final check.
\<close>

fun stack_after :: "token list \<Rightarrow> pyfloat list \<Rightarrow> error + pyfloat list" where
  "stack_after [] operand_stack = Inr operand_stack"
| "stack_after (Number v # rpn_tokens) operand_stack = stack_after rpn_tokens (v # operand_stack)"
| "stack_after (Symbol s # rpn_tokens) operand_stack =
     (case OPERATORS s of
        Some f \<Rightarrow>
          (case operand_stack of
             op2 # op1 # rest \<Rightarrow>
               if s = ''/'' \<and> op2 = 0 then Inl DivisionByZeroError
               else stack_after rpn_tokens (f op1 op2 # rest)
           | _ \<Rightarrow> Inl (InvalidExpressionError NotEnoughOperands))
      | None \<Rightarrow> Inl (InvalidExpressionError UnknownTokenInRPN))"

text \<open>
  What an RPN sequence may hold (a number or one of the four operators), and what the
  operator stack may hold.
\<close>

definition rpn_token :: "token \<Rightarrow> bool" where
  "rpn_token t = (is_number t \<or> t \<in> set [Symbol ''+'', Symbol ''-'', Symbol ''*'', Symbol ''/''])"

definition stack_symbol :: "string \<Rightarrow> bool" where
  "stack_symbol s = (s \<in> set [''+'', ''-'', ''*'', ''/'', ''(''])"

text \<open>
  The unary pass as the specification words it. The symbol at index \<open>i\<close> is a unary sign
  when it is \<^verbatim>\<open>+\<close> or \<^verbatim>\<open>-\<close>, it is the first token or the token before it is one of
  the symbols \<^verbatim>\<open>( + - * /\<close>, and the token after it is a number. A unary sign and its
  number give one signed number; every other token is kept.
\<close>

definition unary_sign_at :: "token list \<Rightarrow> nat \<Rightarrow> bool" where
  "unary_sign_at tokens i =
     ((tokens ! i = Symbol ''+'' \<or> tokens ! i = Symbol ''-'') \<and>
      (i = 0 \<or> tokens ! (i - 1) \<in> set [Symbol ''('', Symbol ''+'', Symbol ''-'', Symbol ''*'',
                                         Symbol ''/'']) \<and>
      (Suc i < length tokens \<and> is_number (tokens ! Suc i)))"

definition signed_number :: "token \<Rightarrow> token \<Rightarrow> token" where
  "signed_number sign number = (if sign = Symbol ''-'' then negate number else number)"

definition folded_at :: "token list \<Rightarrow> nat \<Rightarrow> token list" where
  "folded_at tokens i =
     (if unary_sign_at tokens i then [signed_number (tokens ! i) (tokens ! Suc i)]
      else if 0 < i \<and> unary_sign_at tokens (i - 1) then []
      else [tokens ! i])"

subsection \<open>Arithmetic expressions\<close>










text \<open>
  The unary pass by recursion on the tokens that are left, with the token before them
  (\<open>None\<close> at the start of the list).
\<close>

fun sign_allowed_after :: "token option \<Rightarrow> bool" where
  "sign_allowed_after None = True"
| "sign_allowed_after (Some (Symbol s)) = (s \<in> set [''('', ''+'', ''-'', ''*'', ''/''])"
| "sign_allowed_after (Some (Number v)) = False"

fun fold_after :: "token option \<Rightarrow> token list \<Rightarrow> token list" where
  "fold_after prev [] = []"
| "fold_after prev [t] = [t]"
| "fold_after prev (t # u # ts) =
     (if (t = Symbol ''+'' \<or> t = Symbol ''-'') \<and> sign_allowed_after prev \<and> is_number u
      then signed_number t u # fold_after (Some u) ts
      else t # fold_after (Some t) (u # ts))"



section \<open>The RPN evaluator: operand order and errors\<close>

lemma rpn_loop_append:
  "rpn_loop (pre @ post) st =
     (case stack_after pre st of Inl e \<Rightarrow> Inl e | Inr st' \<Rightarrow> rpn_loop post st')"
  by (induction pre st rule: stack_after.induct)
     (auto split: option.splits list.splits)

text \<open>
  C3: a binary operator takes the top of the operand stack as its second operand and
  the value below it as its first operand, and the result \<open>f op1 op2\<close> replaces both. So
  \<open>a b -\<close> is \<open>a - b\<close>, \<open>a b /\<close> is \<open>a / b\<close>, and \<^verbatim>\<open>"10 - 3"\<close> is 7.
\<close>

theorem operand_order:
  "(OPERATORS s = Some f \<longrightarrow> \<not> (s = ''/'' \<and> op2 = 0) \<longrightarrow>
      rpn_loop (Symbol s # rpn_tokens) (op2 # op1 # rest) = rpn_loop rpn_tokens (f op1 op2 # rest))
   \<and> evaluate_rpn [Number a, Number b, Symbol ''-''] = Inr (a - b)
   \<and> (b \<noteq> 0 \<longrightarrow> evaluate_rpn [Number a, Number b, Symbol ''/''] = Inr (a / b))
   \<and> safe_evaluate_expression (PyStr ''10 - 3'') = Inr 7"
proof -
  have "safe_evaluate_expression (PyStr ''10 - 3'') = Inr 7" by code_simp
  then show ?thesis by (simp add: evaluate_rpn_def OPERATORS_def)
qed

theorem operand_order_witness:
  "OPERATORS ''-'' = Some (\<lambda>a b. a - b) \<and> \<not> (''-'' = ''/'' \<and> (3::rat) = 0) \<and>
   rpn_loop [Symbol ''-''] [3, 10] = Inr 7 \<and>
   (2::rat) \<noteq> 0 \<and> evaluate_rpn [Number 1, Number 2, Symbol ''/''] = Inr (1 / 2)"
  using operand_order [of "''-''" "\<lambda>a b. a - b" 3 "[]" 10 "[]" 1 2]
  by (simp add: OPERATORS_def)



text \<open>
  C7: a binary operator that finds fewer than two values on the operand stack raises
  \<^verbatim>\<open>InvalidExpressionError\<close>, and so does the end of the tokens when the stack does not
  hold exactly one value; \<^verbatim>\<open>"1 +"\<close> raises \<^verbatim>\<open>InvalidExpressionError\<close>.
\<close>

theorem operand_stack_errors:
  "(OPERATORS s = Some f \<longrightarrow> length operand_stack < 2 \<longrightarrow>
      rpn_loop (Symbol s # rpn_tokens) operand_stack
        = Inl (InvalidExpressionError NotEnoughOperands))
   \<and> (stack_after pre [] = Inr operand_stack \<longrightarrow> OPERATORS s = Some f \<longrightarrow>
       length operand_stack < 2 \<longrightarrow>
      evaluate_rpn (pre @ Symbol s # post) = Inl (InvalidExpressionError NotEnoughOperands))
   \<and> (stack_after pre [] = Inr operand_stack \<longrightarrow> length operand_stack \<noteq> 1 \<longrightarrow>
      evaluate_rpn pre = Inl (InvalidExpressionError StackNotSingle))
   \<and> safe_evaluate_expression (PyStr ''1 +'') = Inl (InvalidExpressionError NotEnoughOperands)"
proof -
  have a: "OPERATORS s = Some f \<Longrightarrow> length st < 2 \<Longrightarrow>
      rpn_loop (Symbol s # ts) st = Inl (InvalidExpressionError NotEnoughOperands)" for st ts
    by (cases st) (auto split: list.splits)
  have b: "length st \<noteq> 1 \<Longrightarrow> rpn_loop [] st = Inl (InvalidExpressionError StackNotSingle)"
    for st
    by (auto split: list.splits)
  have c: "safe_evaluate_expression (PyStr ''1 +'')
             = Inl (InvalidExpressionError NotEnoughOperands)"
    by code_simp
  have d: "rpn_loop pre [] =
             (case stack_after pre [] of Inl e \<Rightarrow> Inl e | Inr st' \<Rightarrow> rpn_loop [] st')"
    using rpn_loop_append [of pre "[]" "[]"] by simp
  show ?thesis using a b c
    by (auto simp: evaluate_rpn_def rpn_loop_append d simp del: rpn_loop.simps)
qed

theorem operand_stack_errors_witness:
  "OPERATORS ''+'' = Some (\<lambda>a b. a + b) \<and> length [1::rat] < 2 \<and>
   rpn_loop [Symbol ''+''] [1] = Inl (InvalidExpressionError NotEnoughOperands) \<and>
   stack_after [Number 1] [] = Inr [1] \<and>
   evaluate_rpn ([Number 1] @ Symbol ''+'' # []) = Inl (InvalidExpressionError NotEnoughOperands) \<and>
   stack_after [Number 1, Number 2] [] = Inr [2, 1] \<and> length [2, 1::rat] \<noteq> 1 \<and>
   evaluate_rpn [Number 1, Number 2] = Inl (InvalidExpressionError StackNotSingle)"
  using operand_stack_errors [of "''+''" "\<lambda>a b. a + b" "[1]" "[]" "[Number 1]" "[]"]
        operand_stack_errors [of "''+''" "\<lambda>a b. a + b" "[2, 1]" "[]" "[Number 1, Number 2]" "[]"]
  by (simp add: OPERATORS_def)

section \<open>The converter: parentheses\<close>

text \<open>
  C6: a right parenthesis that finds no left parenthesis on the operator stack raises
  \<^verbatim>\<open>UnbalancedParenthesesError\<close> (missing left parenthesis); a left parenthesis that is
  still on the stack when the tokens are consumed raises \<^verbatim>\<open>UnbalancedParenthesesError\<close>
  (missing right parenthesis), as \<^verbatim>\<open>"(1 + 2"\<close> does.
\<close>

theorem unbalanced_parentheses:
  "(''('' \<notin> set operator_stack \<longrightarrow>
      shunting_loop (Symbol '')'' # tokens) output_queue operator_stack
        = Inl (UnbalancedParenthesesError MissingLeft))
   \<and> (''('' \<in> set operator_stack \<longrightarrow>
      shunting_loop [] output_queue operator_stack
        = Inl (UnbalancedParenthesesError MissingRight))
   \<and> safe_evaluate_expression (PyStr ''(1 + 2'') = Inl (UnbalancedParenthesesError MissingRight)
   \<and> safe_evaluate_expression (PyStr ''1 + 2)'') = Inl (UnbalancedParenthesesError MissingLeft)"
proof -
  have a: "''('' \<notin> set st \<Longrightarrow> pop_to_paren out st = (out @ map Symbol st, [])" for out st
    by (induction st arbitrary: out) auto
  have b: "''('' \<in> set st \<Longrightarrow> drain out st = Inl (UnbalancedParenthesesError MissingRight)"
    for out st
    by (induction st arbitrary: out) auto
  have c: "safe_evaluate_expression (PyStr ''(1 + 2'')
             = Inl (UnbalancedParenthesesError MissingRight)"
    by code_simp
  have d: "safe_evaluate_expression (PyStr ''1 + 2)'')
             = Inl (UnbalancedParenthesesError MissingLeft)"
    by code_simp
  show ?thesis using c d by (simp add: a b PRECEDENCE_def)
qed

theorem unbalanced_parentheses_witness:
  "''('' \<notin> set [''+''] \<and>
   shunting_loop [Symbol '')'', Number 1] [Number 2] [''+'']
     = Inl (UnbalancedParenthesesError MissingLeft) \<and>
   ''('' \<in> set [''+'', ''(''] \<and>
   shunting_loop [] [Number 1, Number 2] [''+'', ''('']
     = Inl (UnbalancedParenthesesError MissingRight)"
  using unbalanced_parentheses [of "[''+'']" "[Number 1]" "[Number 2]"]
        unbalanced_parentheses [of "[''+'', ''('']" "[]" "[Number 1, Number 2]"]
  by simp

section \<open>The main function on an empty group\<close>

text \<open>
  C1: the claim is that \<^verbatim>\<open>"5 ()"\<close> raises \<^verbatim>\<open>InvalidExpressionError\<close>. The function
  returns 5: the parentheses leave nothing on the operator stack and the RPN sequence is
  the single number.
\<close>

theorem five_with_empty_group_returns:
  "safe_evaluate_expression (PyStr ''5 ()'') = Inr 5"
  by code_simp

section \<open>The converter: what reaches the output queue\<close>

lemma PRECEDENCE_Some:
  "PRECEDENCE s = Some p \<Longrightarrow> s \<in> set [''+'', ''-'', ''*'', ''/'']"
  by (auto simp: PRECEDENCE_def split: if_splits)

lemma pop_operators_tokens:
  "pop_operators tok p out st = (out', st') \<Longrightarrow> list_all rpn_token out \<Longrightarrow>
   list_all stack_symbol st \<Longrightarrow> list_all rpn_token out' \<and> list_all stack_symbol st'"
proof (induction tok p out st rule: pop_operators.induct)
  case (1 tok p output_queue)
  then show ?case by simp
next
  case (2 tok p output_queue tos operator_stack)
  show ?case
  proof (cases "tos \<noteq> ''('' \<and> (precedence_get tos > p \<or>
          (precedence_get tos = p \<and> ASSOCIATIVITY tok = Some CHR ''L''))")
    case True
    moreover from True "2.prems"(3) have "rpn_token (Symbol tos)"
      by (auto simp: rpn_token_def stack_symbol_def)
    ultimately show ?thesis using "2.IH" "2.prems" by simp
  next
    case False
    then show ?thesis using "2.prems" by auto
  qed
qed

lemma pop_to_paren_tokens:
  "pop_to_paren out st = (out', st') \<Longrightarrow> list_all rpn_token out \<Longrightarrow>
   list_all stack_symbol st \<Longrightarrow> list_all rpn_token out' \<and> list_all stack_symbol st'"
proof (induction out st rule: pop_to_paren.induct)
  case (1 output_queue)
  then show ?case by simp
next
  case (2 output_queue tos operator_stack)
  show ?case
  proof (cases "tos \<noteq> ''(''")
    case True
    moreover from True "2.prems"(3) have "rpn_token (Symbol tos)"
      by (auto simp: rpn_token_def stack_symbol_def)
    ultimately show ?thesis using "2.IH" "2.prems" by simp
  next
    case False
    then show ?thesis using "2.prems" by auto
  qed
qed

lemma drain_tokens:
  "drain out st = Inr rpn \<Longrightarrow> list_all rpn_token out \<Longrightarrow>
   list_all stack_symbol st \<Longrightarrow> list_all rpn_token rpn"
proof (induction out st rule: drain.induct)
  case (1 output_queue)
  then show ?case by simp
next
  case (2 output_queue tos operator_stack)
  from "2.prems"(1) have ne: "tos \<noteq> ''(''" by (auto split: if_splits)
  with "2.prems"(3) have "rpn_token (Symbol tos)"
    by (auto simp: rpn_token_def stack_symbol_def)
  with ne show ?case using "2.IH" "2.prems" by simp
qed

lemma shunting_loop_tokens:
  "shunting_loop ts out st = Inr rpn \<Longrightarrow> list_all rpn_token out \<Longrightarrow>
   list_all stack_symbol st \<Longrightarrow> list_all rpn_token rpn"
proof (induction ts out st rule: shunting_loop.induct)
  case (1 output_queue operator_stack)
  then show ?case by (auto dest: drain_tokens)
next
  case (2 v tokens output_queue operator_stack)
  then show ?case by (simp add: rpn_token_def)
next
  case (3 s tokens output_queue operator_stack)
  show ?case
  proof (cases "PRECEDENCE s")
    case (Some p)
    obtain out' st' where po: "pop_operators s p output_queue operator_stack = (out', st')"
      by (cases "pop_operators s p output_queue operator_stack")
    from pop_operators_tokens [OF po "3.prems"(2,3)]
    have ok: "list_all rpn_token out'" "list_all stack_symbol st'" by simp_all
    from PRECEDENCE_Some [OF Some] have "stack_symbol s" by (auto simp: stack_symbol_def)
    with ok have "list_all stack_symbol (s # st')" by simp
    moreover from "3.prems"(1) Some po have "shunting_loop tokens out' (s # st') = Inr rpn"
      by simp
    ultimately show ?thesis using "3.IH" Some po [symmetric] ok by blast
  next
    case None
    show ?thesis
    proof (cases "s = ''(''")
      case True
      with None "3.prems" have "shunting_loop tokens output_queue (s # operator_stack) = Inr rpn"
        by simp
      moreover have "stack_symbol s" using True by (simp add: stack_symbol_def)
      with "3.prems"(3) have "list_all stack_symbol (s # operator_stack)"
        by simp
      ultimately show ?thesis using "3.IH" None True "3.prems"(2) by blast
    next
      case False
      with None "3.prems"(1) have rp: "s = '')''" by (auto split: if_splits)
      obtain out' st' where pp: "pop_to_paren output_queue operator_stack = (out', st')"
        by (cases "pop_to_paren output_queue operator_stack")
      from pop_to_paren_tokens [OF pp "3.prems"(2,3)]
      have ok: "list_all rpn_token out'" "list_all stack_symbol st'" by simp_all
      from "3.prems"(1) None False rp pp obtain st'' where
        st': "st' = ''('' # st''" and run: "shunting_loop tokens out' st'' = Inr rpn"
        by (cases st') (auto split: if_splits)
      from ok st' have "list_all stack_symbol st''" by simp
      with run ok show ?thesis
        using "3.IH" None False rp pp [symmetric] st' by blast
    qed
  qed
qed

text \<open>
  C9: when \<^verbatim>\<open>infix_to_rpn\<close> returns, every element of the RPN sequence is a number or
  one of the operators \<^verbatim>\<open>+ - * /\<close>; no parenthesis is in it.
\<close>

theorem rpn_has_no_parentheses:
  "infix_to_rpn tokens = Inr rpn \<Longrightarrow>
   list_all rpn_token rpn \<and> Symbol ''('' \<notin> set rpn \<and> Symbol '')'' \<notin> set rpn"
proof -
  assume "infix_to_rpn tokens = Inr rpn"
  then have "list_all rpn_token rpn"
    using shunting_loop_tokens [of "unary_loop tokens 0 []" "[]" "[]" rpn]
    by (simp add: infix_to_rpn_def)
  then show ?thesis by (auto simp: list_all_iff rpn_token_def)
qed

theorem rpn_has_no_parentheses_witness:
  "infix_to_rpn [Symbol ''('', Number 5, Symbol ''-'', Number 3, Symbol '')'', Symbol ''*'', Number 8]
     = Inr [Number 5, Number 3, Symbol ''-'', Number 8, Symbol ''*''] \<and>
   list_all rpn_token [Number 5, Number 3, Symbol ''-'', Number 8, Symbol ''*''] \<and>
   Symbol ''('' \<notin> set [Number 5, Number 3, Symbol ''-'', Number 8, Symbol ''*'']"
proof -
  have h: "infix_to_rpn [Symbol ''('', Number 5, Symbol ''-'', Number 3, Symbol '')'', Symbol ''*'', Number 8]
     = Inr [Number 5, Number 3, Symbol ''-'', Number 8, Symbol ''*'']"
    by code_simp
  show ?thesis using h rpn_has_no_parentheses [OF h] by simp
qed

section \<open>Numbers always reach the output queue\<close>

lemma unary_loop_keeps_number:
  "list_ex is_number processed \<or> list_ex is_number (drop i tokens) \<Longrightarrow>
   list_ex is_number (unary_loop tokens i processed)"
proof (induction tokens i processed rule: unary_loop.induct)
  case (1 tokens i processed)
  show ?case
  proof (cases "i < length tokens")
    case False
    with "1.prems" show ?thesis by simp
  next
    case True
    note in_range = this
    show ?thesis
    proof (cases "is_unary tokens i")
      case True
      then have num: "is_number (tokens ! (i + 1))" by (simp add: is_unary_def)
      then have "is_number (negate (tokens ! (i + 1)))" by (cases "tokens ! (i + 1)") auto
      with num in_range True show ?thesis using "1.IH"(1,2) by simp
    next
      case False
      from in_range have "drop i tokens = tokens ! i # drop (i + 1) tokens"
        by (simp add: Cons_nth_drop_Suc)
      with "1.prems" have "list_ex is_number (processed @ [tokens ! i]) \<or>
          list_ex is_number (drop (i + 1) tokens)" by auto
      with in_range False show ?thesis using "1.IH"(3) by simp
    qed
  qed
qed

lemma pop_operators_keeps_number:
  "list_ex is_number out \<Longrightarrow> list_ex is_number (fst (pop_operators tok p out st))"
  by (induction tok p out st rule: pop_operators.induct) auto

lemma pop_to_paren_keeps_number:
  "list_ex is_number out \<Longrightarrow> list_ex is_number (fst (pop_to_paren out st))"
  by (induction out st rule: pop_to_paren.induct) auto

lemma drain_keeps_number:
  "drain out st = Inr rpn \<Longrightarrow> list_ex is_number out \<Longrightarrow> list_ex is_number rpn"
  by (induction out st rule: drain.induct) (auto split: if_splits)

lemma shunting_loop_keeps_number:
  "shunting_loop ts out st = Inr rpn \<Longrightarrow> list_ex is_number out \<or> list_ex is_number ts \<Longrightarrow>
   list_ex is_number rpn"
proof (induction ts out st rule: shunting_loop.induct)
  case (1 output_queue operator_stack)
  then show ?case by (auto dest: drain_keeps_number)
next
  case (2 v tokens output_queue operator_stack)
  then show ?case by simp
next
  case (3 s tokens output_queue operator_stack)
  show ?case
  proof (cases "PRECEDENCE s")
    case (Some p)
    obtain out' st' where po: "pop_operators s p output_queue operator_stack = (out', st')"
      by (cases "pop_operators s p output_queue operator_stack")
    from "3.prems"(2) have "list_ex is_number out' \<or> list_ex is_number tokens"
      using pop_operators_keeps_number [of output_queue s p operator_stack] po by auto
    moreover from "3.prems"(1) Some po have "shunting_loop tokens out' (s # st') = Inr rpn"
      by simp
    ultimately show ?thesis using "3.IH" Some po [symmetric] by blast
  next
    case None
    show ?thesis
    proof (cases "s = ''(''")
      case True
      with None "3.prems" show ?thesis using "3.IH" by auto
    next
      case False
      with None "3.prems"(1) have rp: "s = '')''" by (auto split: if_splits)
      obtain out' st' where pp: "pop_to_paren output_queue operator_stack = (out', st')"
        by (cases "pop_to_paren output_queue operator_stack")
      from "3.prems"(1) None False rp pp obtain st'' where
        st': "st' = ''('' # st''" and run: "shunting_loop tokens out' st'' = Inr rpn"
        by (cases st') (auto split: if_splits)
      from "3.prems"(2) have "list_ex is_number out' \<or> list_ex is_number tokens"
        using pop_to_paren_keeps_number [of output_queue operator_stack] pp by auto
      with run show ?thesis
        using "3.IH" None False rp pp [symmetric] st' by blast
    qed
  qed
qed

lemma tokenize_loop_errors:
  "tokenize_loop e p ts = Inl err \<Longrightarrow>
   err = InvalidExpressionError Untokenizable \<or> (\<exists>v n. err = UnknownCharacterError v n)"
proof (induction e p ts rule: tokenize_loop.induct)
  case (1 expression current_pos tokens)
  note prem = "1.prems" [unfolded tokenize_loop.simps [of expression current_pos tokens]]
  show ?case
  proof (cases "current_pos < length expression")
    case False
    with prem show ?thesis by simp
  next
    case True
    show ?thesis
    proof (cases "re_match (drop current_pos expression)")
      case None
      with prem True show ?thesis by simp
    next
      case (Some kv)
      obtain k v where kv: "kv = (k, v)" by (cases kv)
      show ?thesis
      proof (cases k)
        case NUMBER
        with prem True Some kv show ?thesis using "1.IH"(1) by simp
      next
        case OPERATOR
        with prem True Some kv show ?thesis using "1.IH"(2) by simp
      next
        case SPACE
        with prem True Some kv show ?thesis using "1.IH"(3) by simp
      next
        case MISMATCH
        with prem True Some kv show ?thesis by auto
      qed
    qed
  qed
qed

lemma drain_errors:
  "drain out st = Inl err \<Longrightarrow> err = UnbalancedParenthesesError MissingRight"
  by (induction out st rule: drain.induct) (auto split: if_splits)

lemma shunting_loop_errors:
  "shunting_loop ts out st = Inl err \<Longrightarrow>
   err = UnbalancedParenthesesError MissingLeft \<or> err = UnbalancedParenthesesError MissingRight \<or>
   err = InvalidExpressionError UnknownTokenInConversion"
  by (induction ts out st rule: shunting_loop.induct)
     (auto split: if_splits option.splits prod.splits list.splits dest: drain_errors)

lemma rpn_loop_errors:
  "rpn_loop ts st = Inl err \<Longrightarrow>
   err = DivisionByZeroError \<or> err = InvalidExpressionError NotEnoughOperands \<or>
   err = InvalidExpressionError UnknownTokenInRPN \<or> err = InvalidExpressionError StackNotSingle"
  by (induction ts st rule: rpn_loop.induct)
     (auto split: if_splits option.splits list.splits)

lemma infix_to_rpn_nonempty:
  "list_ex is_number tokens \<Longrightarrow> infix_to_rpn tokens = Inr rpn \<Longrightarrow> rpn \<noteq> []"
proof -
  assume num: "list_ex is_number tokens" and ok: "infix_to_rpn tokens = Inr rpn"
  from num have "list_ex is_number (unary_loop tokens 0 [])"
    using unary_loop_keeps_number [of "[]" 0 tokens] by simp
  with ok have "list_ex is_number rpn"
    using shunting_loop_keeps_number [of "unary_loop tokens 0 []" "[]" "[]" rpn]
    by (simp add: infix_to_rpn_def)
  then show ?thesis by auto
qed

lemma evaluate_stripped_not_numbers_branch:
  "evaluate_stripped s \<noteq> Inl (InvalidExpressionError NumbersButEmptyRPN)"
proof
  assume a: "evaluate_stripped s = Inl (InvalidExpressionError NumbersButEmptyRPN)"
  show False
  proof (cases "tokenize s")
    case (Inl e)
    with a have "e = InvalidExpressionError NumbersButEmptyRPN"
      by (simp add: evaluate_stripped_def)
    with Inl show False using tokenize_loop_errors [of s 0 "[]" e] by (simp add: tokenize_def)
  next
    case (Inr tokens)
    note toks = this
    show False
    proof (cases "infix_to_rpn tokens")
      case (Inl e)
      with a toks have "e = InvalidExpressionError NumbersButEmptyRPN"
        by (simp add: evaluate_stripped_def split: if_splits)
      with Inl show False
        using shunting_loop_errors [of "unary_loop tokens 0 []" "[]" "[]" e]
        by (simp add: infix_to_rpn_def)
    next
      case (Inr rpn)
      show False
      proof (cases "rpn = []")
        case True
        with Inr have "\<not> list_ex is_number tokens" using infix_to_rpn_nonempty by blast
        with a toks Inr True show False by (simp add: evaluate_stripped_def split: if_splits)
      next
        case False
        with a toks Inr have "evaluate_rpn rpn = Inl (InvalidExpressionError NumbersButEmptyRPN)"
          by (simp add: evaluate_stripped_def split: if_splits)
        then show False using rpn_loop_errors [of rpn "[]"] by (simp add: evaluate_rpn_def)
      qed
    qed
  qed
qed

lemma reraise_Inl:
  "reraise r = Inl e \<Longrightarrow> r = Inl e \<or> (\<exists>t m. e = SafeEvalError (Unexpected t m))"
  by (cases r rule: reraise.cases) auto

text \<open>
  C10: when the token list holds a number and \<^verbatim>\<open>infix_to_rpn\<close> returns, the RPN
  sequence is not empty; so \<^verbatim>\<open>safe_evaluate_expression\<close> never raises the error of its
  branch for an empty RPN sequence with numbers present.
\<close>

theorem numbers_give_nonempty_rpn:
  "(list_ex is_number tokens \<longrightarrow> infix_to_rpn tokens = Inr rpn \<longrightarrow> rpn \<noteq> [])
   \<and> safe_evaluate_expression obj \<noteq> Inl (InvalidExpressionError NumbersButEmptyRPN)"
proof -
  have "safe_evaluate_expression obj \<noteq> Inl (InvalidExpressionError NumbersButEmptyRPN)"
  proof (cases obj)
    case PyOther
    then show ?thesis by simp
  next
    case (PyStr expression)
    then show ?thesis
      using evaluate_stripped_not_numbers_branch [of "strip expression"]
      by (auto simp: Let_def dest!: reraise_Inl)
  qed
  then show ?thesis using infix_to_rpn_nonempty by blast
qed

theorem numbers_give_nonempty_rpn_witness:
  "list_ex is_number [Number 5, Symbol ''('', Symbol '')''] \<and>
   infix_to_rpn [Number 5, Symbol ''('', Symbol '')''] = Inr [Number 5] \<and>
   [Number 5] \<noteq> ([] :: token list)"
proof -
  have h: "infix_to_rpn [Number 5, Symbol ''('', Symbol '')''] = Inr [Number 5]"
    by code_simp
  show ?thesis
    using h numbers_give_nonempty_rpn [of "[Number 5, Symbol ''('', Symbol '')'']" "[Number 5]"]
    by simp
qed

section \<open>The main function: what it raises\<close>






section \<open>The unary pass\<close>

lemma is_unary_iff:
  "is_unary tokens i = unary_sign_at tokens i"
  by (cases "tokens ! (i - 1)") (auto simp: is_unary_def unary_sign_at_def)

lemma unary_sign_not_after_sign:
  "unary_sign_at tokens i \<Longrightarrow> \<not> unary_sign_at tokens (Suc i)"
  by (cases "tokens ! Suc i") (auto simp: unary_sign_at_def)

lemma unary_loop_folded:
  "i \<le> length tokens \<Longrightarrow> \<not> (0 < i \<and> unary_sign_at tokens (i - 1)) \<Longrightarrow>
   unary_loop tokens i processed
     = processed @ concat (map (folded_at tokens) [i..<length tokens])"
proof (induction tokens i processed rule: unary_loop.induct)
  case (1 tokens i processed)
  show ?case
  proof (cases "i < length tokens")
    case False
    with "1.prems" show ?thesis by simp
  next
    case True
    note in_range = this
    show ?thesis
    proof (cases "unary_sign_at tokens i")
      case True
      then have next_in: "Suc i < length tokens" by (simp add: unary_sign_at_def)
      from True have no_next: "\<not> unary_sign_at tokens (Suc i)"
        by (rule unary_sign_not_after_sign)
      have split: "[i..<length tokens] = i # Suc i # [Suc (Suc i)..<length tokens]"
        using in_range next_in by (simp add: upt_conv_Cons)
      have here: "folded_at tokens i = [signed_number (tokens ! i) (tokens ! Suc i)]"
        using True by (simp add: folded_at_def)
      have absorbed: "folded_at tokens (Suc i) = []"
        using True no_next by (simp add: folded_at_def)
      have step: "unary_loop tokens i processed
          = unary_loop tokens (Suc (Suc i))
              (processed @ [signed_number (tokens ! i) (tokens ! Suc i)])"
        using in_range True
        by (subst unary_loop.simps) (simp add: is_unary_iff signed_number_def)
      have "unary_loop tokens (Suc (Suc i))
              (processed @ [signed_number (tokens ! i) (tokens ! Suc i)])
          = (processed @ [signed_number (tokens ! i) (tokens ! Suc i)])
              @ concat (map (folded_at tokens) [Suc (Suc i)..<length tokens])"
      proof (cases "tokens ! i = Symbol ''-''")
        case minus: True
        show ?thesis
          using "1.IH"(1) [OF in_range _ minus] True next_in no_next minus
          by (simp add: is_unary_iff signed_number_def)
      next
        case plus: False
        show ?thesis
          using "1.IH"(2) [OF in_range _ plus] True next_in no_next plus
          by (simp add: is_unary_iff signed_number_def)
      qed
      with step show ?thesis by (simp add: split here absorbed)
    next
      case False
      have split: "[i..<length tokens] = i # [Suc i..<length tokens]"
        using in_range by (simp add: upt_conv_Cons)
      have here: "folded_at tokens i = [tokens ! i]"
        using False "1.prems"(2) by (simp add: folded_at_def)
      have step: "unary_loop tokens i processed
          = unary_loop tokens (Suc i) (processed @ [tokens ! i])"
        using in_range False by (subst unary_loop.simps) (simp add: is_unary_iff)
      have "unary_loop tokens (Suc i) (processed @ [tokens ! i])
          = (processed @ [tokens ! i]) @ concat (map (folded_at tokens) [Suc i..<length tokens])"
        using "1.IH"(3) [OF in_range] False in_range by (simp add: is_unary_iff)
      with step show ?thesis by (simp add: split here)
    qed
  qed
qed

text \<open>
  C2: the unary pass folds a \<^verbatim>\<open>+\<close> or \<^verbatim>\<open>-\<close> into the number after it exactly at the
  positions where the symbol is the first token or follows one of \<^verbatim>\<open>( + - * /\<close> and a
  number follows it; the sign and the number give one number, negated for \<^verbatim>\<open>-\<close>. Every
  other token is kept as it is. So \<^verbatim>\<open>"5*-2"\<close> is -10 and \<^verbatim>\<open>"1 - -1"\<close> is 2.
\<close>

theorem unary_pass_folds_signs:
  "unary_loop tokens 0 [] = concat (map (folded_at tokens) [0..<length tokens])
   \<and> is_unary tokens i = unary_sign_at tokens i
   \<and> unary_loop [Number 5, Symbol ''*'', Symbol ''-'', Number 2] 0 []
        = [Number 5, Symbol ''*'', Number (- 2)]
   \<and> unary_loop [Number 1, Symbol ''-'', Symbol ''-'', Number 1] 0 []
        = [Number 1, Symbol ''-'', Number (- 1)]
   \<and> safe_evaluate_expression (PyStr ''5*-2'') = Inr (- 10)
   \<and> safe_evaluate_expression (PyStr ''1 - -1'') = Inr 2"
proof -
  have a: "unary_loop tokens 0 [] = concat (map (folded_at tokens) [0..<length tokens])"
    using unary_loop_folded [of 0 tokens "[]"] by simp
  have b: "unary_loop [Number 5, Symbol ''*'', Symbol ''-'', Number 2] 0 []
        = [Number 5, Symbol ''*'', Number (- 2)]"
    by code_simp
  have c: "unary_loop [Number 1, Symbol ''-'', Symbol ''-'', Number 1] 0 []
        = [Number 1, Symbol ''-'', Number (- 1)]"
    by code_simp
  have d: "safe_evaluate_expression (PyStr ''5*-2'') = Inr (- 10)"
    by code_simp
  have e: "safe_evaluate_expression (PyStr ''1 - -1'') = Inr 2"
    by code_simp
  show ?thesis using a b c d e is_unary_iff by blast
qed

section \<open>Arithmetic expressions\<close>

subsection \<open>The RPN evaluator on the postfix order\<close>


subsection \<open>The unary pass on the tokens of an expression\<close>


lemma fold_after_sign:
  "t = Symbol ''+'' \<or> t = Symbol ''-'' \<Longrightarrow> sign_allowed_after prev \<Longrightarrow>
   fold_after prev (t # Number v # ts) = signed_number t (Number v) # fold_after (Some (Number v)) ts"
  by simp




subsection \<open>Shunting-yard on the tokens of an expression\<close>


















subsection \<open>The main function on the tokens of an expression\<close>










end
